theory Spec2Isabelle
  imports Complex_Main
begin

section \<open>Floating-point values\<close>

text \<open>
  The arrays of \<^verbatim>\<open>cubehelix.cmap\<close> hold numpy float64 values. A finite value is
  read as the real it denotes and an operation on finite values as the exact operation, so
  rounding and underflow are left out; overflow is not: a result whose magnitude is above
  the largest double is an infinity. The three non-finite values are kept with their IEEE
  arithmetic (\<^verbatim>\<open>0.**gamma\<close> is \<^verbatim>\<open>inf\<close> for a negative gamma, \<^verbatim>\<open>inf - inf\<close> and
  \<^verbatim>\<open>0.*inf\<close> and \<^verbatim>\<open>cos(inf)\<close> are \<^verbatim>\<open>nan\<close>), a warning in numpy and not an
  exception.
\<close>

datatype fl = Fin real | PInf | NInf | NaN

text \<open>The largest double, \<^verbatim>\<open>(2 - 2**-52) * 2**1023\<close>, and the float of an exact result.\<close>

definition dbl_max :: real where
  "dbl_max = (2 - 1 / 2 ^ 52) * 2 ^ 1023"

definition ovf :: "real \<Rightarrow> fl" where
  "ovf x = (if dbl_max < x then PInf else if x < - dbl_max then NInf else Fin x)"

fun fneg :: "fl \<Rightarrow> fl" where
  "fneg (Fin a) = Fin (- a)"
| "fneg PInf = NInf"
| "fneg NInf = PInf"
| "fneg NaN = NaN"

fun fadd :: "fl \<Rightarrow> fl \<Rightarrow> fl" where
  "fadd (Fin a) (Fin b) = ovf (a + b)"
| "fadd NaN y = NaN"
| "fadd x NaN = NaN"
| "fadd PInf NInf = NaN"
| "fadd NInf PInf = NaN"
| "fadd PInf y = PInf"
| "fadd x PInf = PInf"
| "fadd NInf y = NInf"
| "fadd x NInf = NInf"

definition fsub :: "fl \<Rightarrow> fl \<Rightarrow> fl" where
  "fsub x y = fadd x (fneg y)"

text \<open>The sign of an infinity times a finite factor; zero times infinity is nan.\<close>

definition scale_inf :: "fl \<Rightarrow> real \<Rightarrow> fl" where
  "scale_inf i a = (if 0 < a then i else if a < 0 then fneg i else NaN)"

fun fmul :: "fl \<Rightarrow> fl \<Rightarrow> fl" where
  "fmul (Fin a) (Fin b) = ovf (a * b)"
| "fmul NaN y = NaN"
| "fmul x NaN = NaN"
| "fmul (Fin a) PInf = scale_inf PInf a"
| "fmul (Fin a) NInf = scale_inf NInf a"
| "fmul PInf (Fin b) = scale_inf PInf b"
| "fmul NInf (Fin b) = scale_inf NInf b"
| "fmul PInf PInf = PInf"
| "fmul PInf NInf = NInf"
| "fmul NInf PInf = NInf"
| "fmul NInf NInf = PInf"

text \<open>
  Division of floats that does not raise (numpy's, and Python's by a non-zero constant).
  The only divisors of the source are the constants \<^verbatim>\<open>3.0\<close>, \<^verbatim>\<open>2.\<close> and
  \<^verbatim>\<open>nlev-1.\<close>; a zero divisor is read as positive zero.
\<close>

fun fdiv :: "fl \<Rightarrow> fl \<Rightarrow> fl" where
  "fdiv (Fin a) (Fin b) =
     (if b \<noteq> 0 then ovf (a / b) else if 0 < a then PInf else if a < 0 then NInf else NaN)"
| "fdiv NaN y = NaN"
| "fdiv x NaN = NaN"
| "fdiv (Fin a) y = Fin 0"
| "fdiv PInf (Fin b) = (if 0 \<le> b then PInf else NInf)"
| "fdiv NInf (Fin b) = (if 0 \<le> b then NInf else PInf)"
| "fdiv x y = NaN"

text \<open>
  \<^verbatim>\<open>array ** gamma\<close> with a finite exponent, after C's \<^verbatim>\<open>pow\<close>: anything to the
  power zero is one, zero to a negative power is \<^verbatim>\<open>inf\<close>, a negative base with a
  fractional exponent is \<^verbatim>\<open>nan\<close>, and a finite result may overflow.
\<close>

definition odd_integer :: "real \<Rightarrow> bool" where
  "odd_integer y = (of_int \<lfloor>y\<rfloor> = y \<and> odd \<lfloor>y\<rfloor>)"

fun fpow :: "fl \<Rightarrow> real \<Rightarrow> fl" where
  "fpow (Fin a) y =
     (if y = 0 then Fin 1
      else if 0 < a then ovf (a powr y)
      else if a = 0 then (if y < 0 then PInf else Fin 0)
      else if of_int \<lfloor>y\<rfloor> = y then ovf (a powi \<lfloor>y\<rfloor>)
      else NaN)"
| "fpow PInf y = (if y = 0 then Fin 1 else if y < 0 then Fin 0 else PInf)"
| "fpow NInf y =
     (if y = 0 then Fin 1 else if y < 0 then Fin 0
      else if odd_integer y then NInf else PInf)"
| "fpow NaN y = (if y = 0 then Fin 1 else NaN)"

fun fcos :: "fl \<Rightarrow> fl" where
  "fcos (Fin a) = Fin (cos a)"
| "fcos x = NaN"

fun fsin :: "fl \<Rightarrow> fl" where
  "fsin (Fin a) = Fin (sin a)"
| "fsin x = NaN"

text \<open>Comparison with a finite constant; every comparison with nan is false.\<close>

fun fgt :: "fl \<Rightarrow> real \<Rightarrow> bool" where
  "fgt (Fin a) c = (c < a)"
| "fgt PInf c = True"
| "fgt NInf c = False"
| "fgt NaN c = False"

fun flt :: "fl \<Rightarrow> real \<Rightarrow> bool" where
  "flt (Fin a) c = (a < c)"
| "flt PInf c = False"
| "flt NInf c = True"
| "flt NaN c = False"

section \<open>The colour map\<close>

text \<open>Line 59: \<^verbatim>\<open>nlev = 256.\<close>, a local constant of the function.\<close>

definition nlev :: real where
  "nlev = 256"

text \<open>\<^verbatim>\<open>np.arange(n)\<close> for a float \<open>n\<close>: the floats \<open>0, 1, ...\<close> below \<open>n\<close>.\<close>

definition arange :: "real \<Rightarrow> fl list" where
  "arange n = map (\<lambda>k. Fin (real k)) [0..<nat \<lceil>n\<rceil>]"

text \<open>
  Lines 62-70: the three channel arrays before clipping, as \<open>(red, grn, blu)\<close>. The
  parameters are finite floats; \<^verbatim>\<open>start/3.0 + 1.0\<close> is computed once, on scalars.
\<close>

definition channels :: "real \<Rightarrow> real \<Rightarrow> real \<Rightarrow> real \<Rightarrow> fl list \<times> fl list \<times> fl list" where
  "channels start rot gamma hue =
    (let fract = map (\<lambda>x. fdiv x (Fin (nlev - 1))) (arange nlev);
         angle = map (\<lambda>f. fmul (Fin (2 * pi))
                   (fadd (fadd (fdiv (Fin start) (Fin 3)) (Fin 1)) (fmul (Fin rot) f))) fract;
         fract = map (\<lambda>f. fpow f gamma) fract;
         amp = map (\<lambda>f. fdiv (fmul (fmul (Fin hue) f) (fsub (Fin 1) f)) (Fin 2)) fract;
         red = map (\<lambda>(f, a, w).
                 fadd f (fmul a (fadd (fmul (Fin (- 0.14861)) (fcos w)) (fmul (Fin 1.78277) (fsin w)))))
               (zip fract (zip amp angle));
         grn = map (\<lambda>(f, a, w).
                 fadd f (fmul a (fsub (fmul (Fin (- 0.29227)) (fcos w)) (fmul (Fin 0.90649) (fsin w)))))
               (zip fract (zip amp angle));
         blu = map (\<lambda>(f, a, w). fadd f (fmul a (fmul (Fin 1.97294) (fcos w))))
               (zip fract (zip amp angle))
     in (red, grn, blu))"

text \<open>Lines 73-79: \<^verbatim>\<open>x[np.where(x > 1.)] = 1.\<close>, then \<^verbatim>\<open>x[np.where(x < 0.)] = 0.\<close>\<close>

definition clip_hi :: "fl list \<Rightarrow> fl list" where
  "clip_hi xs = map (\<lambda>x. if fgt x 1 then Fin 1 else x) xs"

definition clip_lo :: "fl list \<Rightarrow> fl list" where
  "clip_lo xs = map (\<lambda>x. if flt x 0 then Fin 0 else x) xs"

text \<open>Lines 82-85: \<^verbatim>\<open>x[::-1]\<close> when \<^verbatim>\<open>reverse\<close> is set.\<close>

definition reversed :: "bool \<Rightarrow> fl list \<Rightarrow> fl list" where
  "reversed reverse xs = (if reverse then rev xs else xs)"

text \<open>
  Lines 88-96. A row of the segment data is \<open>(x, y0, y1)\<close>. The \<open>x\<close> is a division
  of Python floats, which raises on a zero divisor; indexing an array out of bounds
  raises too. A call that does not fit the signature of line 6 raises \<open>TypeError\<close>.
\<close>

datatype error = ZeroDivisionError | IndexError | TypeError

type_synonym segment = "real \<times> fl \<times> fl"

record cdict =
  red :: "segment list"
  blue :: "segment list"
  green :: "segment list"

definition py_div :: "real \<Rightarrow> real \<Rightarrow> error + real" where
  "py_div a b = (if b = 0 then Inl ZeroDivisionError else Inr (a / b))"

definition item :: "fl list \<Rightarrow> nat \<Rightarrow> error + fl" where
  "item xs k = (if k < length xs then Inr (xs ! k) else Inl IndexError)"

definition row :: "fl list \<Rightarrow> nat \<Rightarrow> error + segment" where
  "row xs k =
    (case py_div (real k) (nlev - 1) of
       Inl e \<Rightarrow> Inl e
     | Inr t \<Rightarrow> (case item xs k of Inl e \<Rightarrow> Inl e | Inr v \<Rightarrow> Inr (t, v, v)))"

fun table_loop ::
  "fl list \<Rightarrow> fl list \<Rightarrow> fl list \<Rightarrow> nat list \<Rightarrow>
   segment list \<Rightarrow> segment list \<Rightarrow> segment list \<Rightarrow> error + cdict" where
  "table_loop rs bs gs [] rr bb gg = Inr \<lparr>red = rr, blue = bb, green = gg\<rparr>"
| "table_loop rs bs gs (k # ks) rr bb gg =
    (case row rs k of
       Inl e \<Rightarrow> Inl e
     | Inr r \<Rightarrow>
        (case row bs k of
           Inl e \<Rightarrow> Inl e
         | Inr b \<Rightarrow>
            (case row gs k of
               Inl e \<Rightarrow> Inl e
             | Inr g \<Rightarrow> table_loop rs bs gs ks (rr @ [r]) (bb @ [b]) (gg @ [g]))))"

text \<open>
  \<^verbatim>\<open>cmap(start, rot, gamma, hue, reverse)\<close>. The returned
  \<^verbatim>\<open>LinearSegmentedColormap\<close> is represented by the segment data it is built from;
  \<^verbatim>\<open>range(0,int(nlev))\<close> is the list of the loop.
\<close>

definition cmap :: "real \<Rightarrow> real \<Rightarrow> real \<Rightarrow> real \<Rightarrow> bool \<Rightarrow> error + cdict" where
  "cmap start rot gamma hue reverse =
    (case channels start rot gamma hue of
       (rs, gs, bs) \<Rightarrow>
         table_loop
           (reversed reverse (clip_lo (clip_hi rs)))
           (reversed reverse (clip_lo (clip_hi bs)))
           (reversed reverse (clip_lo (clip_hi gs)))
           [0..<nat \<lfloor>nlev\<rfloor>] [] [] [])"


section \<open>Reading a palette\<close>

text \<open>
  Entry \<open>k\<close> of the table as the specification's sample \<open>(t, r, g, b)\<close>: the
  coordinate of the red row and the value of each channel's row.
\<close>

definition t_at :: "cdict \<Rightarrow> nat \<Rightarrow> real" where
  "t_at c k = fst (red c ! k)"

definition rgb_at :: "cdict \<Rightarrow> nat \<Rightarrow> fl \<times> fl \<times> fl" where
  "rgb_at c k = (fst (snd (red c ! k)), fst (snd (green c ! k)), fst (snd (blue c ! k)))"

definition sample_of :: "error + cdict \<Rightarrow> nat \<Rightarrow> error + real \<times> fl \<times> fl \<times> fl" where
  "sample_of res k = (case res of Inl e \<Rightarrow> Inl e | Inr c \<Rightarrow> Inr (t_at c k, rgb_at c k))"

section \<open>Closed forms used in the statements\<close>

text \<open>
  What lines 73-79 do to one element: above 1 it becomes 1, then below 0 it becomes 0.
\<close>

definition clamp :: "fl \<Rightarrow> fl" where
  "clamp x = (let y = (if fgt x 1 then Fin 1 else x) in if flt y 0 then Fin 0 else y)"

text \<open>
  The element of a channel array that row \<open>k\<close> of the table shows, after the optional
  \<^verbatim>\<open>[::-1]\<close> on an array of length 256.
\<close>

definition src_index :: "bool \<Rightarrow> nat \<Rightarrow> nat" where
  "src_index reverse k = (if reverse then 255 - k else k)"

text \<open>
  The value of \<^verbatim>\<open>fract**gamma\<close> for a fraction in \<open>[0,1]\<close> and a gamma that is not
  negative: \<^verbatim>\<open>x**0.\<close> is 1 for every \<open>x\<close>, zero included.
\<close>

definition warp :: "real \<Rightarrow> real \<Rightarrow> real" where
  "warp g t = (if g = 0 then 1 else t powr g)"

text \<open>
  The reference formulas as the specification writes them (section 4.1, steps 2 to 5) for
  a normalised position \<open>t\<close>, each operation being the float operation: the angle from
  the unwarped \<open>t\<close>, \<open>f = t\<close> to the power gamma, the amplitude, and the three channel
  equations with their coefficients.
\<close>

definition ref_angle :: "real \<Rightarrow> real \<Rightarrow> real \<Rightarrow> fl" where
  "ref_angle start rot t =
     fmul (Fin (2 * pi)) (fadd (fadd (fdiv (Fin start) (Fin 3)) (Fin 1)) (fmul (Fin rot) (Fin t)))"

definition ref_f :: "real \<Rightarrow> real \<Rightarrow> fl" where
  "ref_f gamma t = fpow (Fin t) gamma"

definition ref_amp :: "real \<Rightarrow> fl \<Rightarrow> fl" where
  "ref_amp hue f = fdiv (fmul (fmul (Fin hue) f) (fsub (Fin 1) f)) (Fin 2)"

definition ref_red :: "real \<Rightarrow> real \<Rightarrow> real \<Rightarrow> real \<Rightarrow> real \<Rightarrow> fl" where
  "ref_red start rot gamma hue t =
    (let angle = ref_angle start rot t; f = ref_f gamma t; amp = ref_amp hue f
     in fadd f (fmul amp (fadd (fmul (Fin (- 0.14861)) (fcos angle))
                               (fmul (Fin 1.78277) (fsin angle)))))"

definition ref_green :: "real \<Rightarrow> real \<Rightarrow> real \<Rightarrow> real \<Rightarrow> real \<Rightarrow> fl" where
  "ref_green start rot gamma hue t =
    (let angle = ref_angle start rot t; f = ref_f gamma t; amp = ref_amp hue f
     in fadd f (fmul amp (fsub (fmul (Fin (- 0.29227)) (fcos angle))
                               (fmul (Fin 0.90649) (fsin angle)))))"

definition ref_blue :: "real \<Rightarrow> real \<Rightarrow> real \<Rightarrow> real \<Rightarrow> real \<Rightarrow> fl" where
  "ref_blue start rot gamma hue t =
    (let angle = ref_angle start rot t; f = ref_f gamma t; amp = ref_amp hue f
     in fadd f (fmul amp (fmul (Fin 1.97294) (fcos angle))))"


section \<open>Magnitudes\<close>

lemma pi_ge_three: "3 \<le> pi"
proof -
  have "sin (pi / 6) \<le> pi / 6"
    by (rule sin_x_le_x) simp
  then show ?thesis
    by (simp add: sin_30)
qed

lemma dbl_max_bounds: "17 * 10 ^ 307 \<le> dbl_max" "dbl_max < 18 * 10 ^ 307"
  by (simp_all add: dbl_max_def)

text \<open>The bound \<open>10 ^ 307\<close> under a name, so that no proof computes with its digits.\<close>

lemma big:
  obtains B :: real where "B = 10 ^ 307" and "10 \<le> B" and "17 * B \<le> dbl_max"
    and "dbl_max < 18 * B" and "(10::real) ^ 308 = 10 * B"
proof
  show "(10::real) ^ 307 = 10 ^ 307" ..
  show "10 \<le> (10::real) ^ 307"
    by (rule self_le_power) simp_all
  show "17 * 10 ^ 307 \<le> dbl_max" "dbl_max < 18 * 10 ^ 307"
    by (rule dbl_max_bounds)+
  have "(308::nat) = Suc 307" by simp
  then show "(10::real) ^ 308 = 10 * 10 ^ 307"
    by (simp only: power_Suc)
qed

lemma dbl_max_ge_100: "100 \<le> dbl_max"
proof -
  obtain B :: real where "10 \<le> B" "17 * B \<le> dbl_max" by (rule big)
  then show ?thesis by linarith
qed

lemma ovf_Fin: "\<bar>x\<bar> \<le> dbl_max \<Longrightarrow> ovf x = Fin x"
  by (auto simp: ovf_def)

lemma ovf_unit: "\<bar>x\<bar> \<le> 2 \<Longrightarrow> ovf x = Fin x"
  using dbl_max_ge_100 by (intro ovf_Fin) linarith

lemma ovf_PInf: "dbl_max < x \<Longrightarrow> ovf x = PInf"
  by (simp add: ovf_def)

lemma fmul_NaN: "fmul x NaN = NaN"
  by (cases x) simp_all

lemma fadd_NaN: "fadd x NaN = NaN"
  by (cases x) simp_all

section \<open>The arrays, element by element\<close>

lemma fract_nth: "k < 256 \<Longrightarrow> fdiv (Fin (real k)) (Fin 255) = Fin (real k / 255)"
  by (simp add: ovf_unit)

lemma channels_length:
  "length (fst (channels s r g h)) = 256"
  "length (fst (snd (channels s r g h))) = 256"
  "length (snd (snd (channels s r g h))) = 256"
  by (simp_all add: channels_def Let_def arange_def nlev_def)

lemma channels_nth:
  assumes "k < 256"
  shows "fst (channels s r g h) ! k = ref_red s r g h (real k / 255)"
    and "fst (snd (channels s r g h)) ! k = ref_green s r g h (real k / 255)"
    and "snd (snd (channels s r g h)) ! k = ref_blue s r g h (real k / 255)"
  using assms
  by (simp_all add: channels_def Let_def arange_def nlev_def fract_nth ref_red_def ref_green_def
        ref_blue_def ref_angle_def ref_f_def ref_amp_def del: fdiv.simps fmul.simps fadd.simps fpow.simps)


section \<open>Finite values\<close>

lemma ref_angle_fin:
  assumes "\<bar>s\<bar> \<le> 10 ^ 307" and "\<bar>r\<bar> \<le> 10 ^ 307" and "0 \<le> t" and "t \<le> 1"
  shows "ref_angle s r t = Fin (2 * pi * (s / 3 + 1 + r * t))"
proof -
  obtain B :: real where BB: "B = 10 ^ 307" and B: "10 \<le> B" "17 * B \<le> dbl_max"
    by (rule big)
  have sr: "\<bar>s\<bar> \<le> B" "\<bar>r\<bar> \<le> B"
    using assms(1,2) by (simp_all only: BB)
  have "\<bar>r * t\<bar> = \<bar>r\<bar> * t"
    using assms(3) by (simp add: abs_mult)
  also have "\<dots> \<le> \<bar>r\<bar> * 1"
    using assms(4) by (intro mult_left_mono) simp_all
  finally have rt: "\<bar>r * t\<bar> \<le> B"
    using sr(2) by simp
  have "\<bar>s / 3\<bar> \<le> dbl_max"
    using sr(1) B by linarith
  then have a1: "fdiv (Fin s) (Fin 3) = Fin (s / 3)"
    by (simp add: ovf_Fin)
  have "\<bar>s / 3 + 1\<bar> \<le> dbl_max"
    using sr(1) B by linarith
  then have a2: "fadd (Fin (s / 3)) (Fin 1) = Fin (s / 3 + 1)"
    by (simp add: ovf_Fin)
  have "\<bar>r * t\<bar> \<le> dbl_max"
    using rt B by linarith
  then have a3: "fmul (Fin r) (Fin t) = Fin (r * t)"
    by (simp add: ovf_Fin)
  have x: "\<bar>s / 3 + 1 + r * t\<bar> \<le> B / 3 + 1 + B"
    using sr(1) rt by linarith
  then have "\<bar>s / 3 + 1 + r * t\<bar> \<le> dbl_max"
    using B by linarith
  then have a4: "fadd (Fin (s / 3 + 1)) (Fin (r * t)) = Fin (s / 3 + 1 + r * t)"
    by (simp add: ovf_Fin)
  have "\<bar>2 * pi * (s / 3 + 1 + r * t)\<bar> = (2 * pi) * \<bar>s / 3 + 1 + r * t\<bar>"
    by (simp add: abs_mult)
  also have "\<dots> \<le> 8 * \<bar>s / 3 + 1 + r * t\<bar>"
    using pi_less_4 by (intro mult_right_mono) simp_all
  also have "\<dots> \<le> 8 * (B / 3 + 1 + B)"
    using x by (intro mult_left_mono) simp_all
  also have "\<dots> \<le> dbl_max"
    using B by (simp add: algebra_simps)
  finally have "\<bar>2 * pi * (s / 3 + 1 + r * t)\<bar> \<le> dbl_max" .
  then have a5: "fmul (Fin (2 * pi)) (Fin (s / 3 + 1 + r * t)) = Fin (2 * pi * (s / 3 + 1 + r * t))"
    by (simp add: ovf_Fin)
  show ?thesis
    by (simp only: ref_angle_def a1 a2 a3 a4 a5)
qed

lemma warp_unit:
  assumes "0 \<le> g" and "0 \<le> t" and "t \<le> 1"
  shows "0 \<le> warp g t" and "warp g t \<le> 1"
  using assms by (simp_all add: warp_def powr_le1)

lemma ref_f_fin:
  assumes "0 \<le> g" and "0 \<le> t" and "t \<le> 1"
  shows "ref_f g t = Fin (warp g t)"
proof (cases "g = 0")
  case True
  then show ?thesis by (simp add: ref_f_def warp_def)
next
  case False
  have "\<bar>t powr g\<bar> \<le> 2"
    using assms by (simp add: powr_le1 order_trans [of _ 1])
  then have "ovf (t powr g) = Fin (t powr g)"
    by (rule ovf_unit)
  with False assms show ?thesis
    by (auto simp: ref_f_def warp_def)
qed

lemma ref_amp_fin:
  assumes "\<bar>h\<bar> \<le> dbl_max" and "0 \<le> f" and "f \<le> 1"
  shows "ref_amp h (Fin f) = Fin (h * f * (1 - f) / 2)"
    and "\<bar>h * f * (1 - f) / 2\<bar> \<le> \<bar>h\<bar> / 2"
proof -
  have "\<bar>h * f\<bar> = \<bar>h\<bar> * f"
    using assms(2) by (simp add: abs_mult)
  also have "\<dots> \<le> \<bar>h\<bar> * 1"
    using assms(3) by (intro mult_left_mono) simp_all
  finally have hf: "\<bar>h * f\<bar> \<le> \<bar>h\<bar>" by simp
  have "\<bar>h * f * (1 - f)\<bar> = \<bar>h * f\<bar> * (1 - f)"
    using assms(3) by (simp add: abs_mult)
  also have "\<dots> \<le> \<bar>h * f\<bar> * 1"
    using assms(2) by (intro mult_left_mono) simp_all
  finally have hff: "\<bar>h * f * (1 - f)\<bar> \<le> \<bar>h\<bar>"
    using hf by simp
  have b1: "fmul (Fin h) (Fin f) = Fin (h * f)"
    using hf assms(1) by (simp add: ovf_Fin)
  have b2: "fsub (Fin 1) (Fin f) = Fin (1 - f)"
    using assms(2,3) by (simp add: fsub_def ovf_unit)
  have b3: "fmul (Fin (h * f)) (Fin (1 - f)) = Fin (h * f * (1 - f))"
    using hff assms(1) by (simp add: ovf_Fin)
  have b4: "fdiv (Fin (h * f * (1 - f))) (Fin 2) = Fin (h * f * (1 - f) / 2)"
    using hff assms(1) by (simp add: ovf_Fin)
  show "ref_amp h (Fin f) = Fin (h * f * (1 - f) / 2)"
    by (simp only: ref_amp_def b1 b2 b3 b4)
  show "\<bar>h * f * (1 - f) / 2\<bar> \<le> \<bar>h\<bar> / 2"
    using hff by simp
qed

text \<open>A channel: \<open>f + a * c\<close> for a coefficient term \<open>c\<close> of magnitude below 1.98.\<close>

lemma mix_fin:
  assumes "\<bar>h\<bar> \<le> dbl_max" and "\<bar>a\<bar> \<le> \<bar>h\<bar> / 2" and "\<bar>c\<bar> \<le> 198 / 100"
    and "0 \<le> f" and "f \<le> 1"
  shows "fadd (Fin f) (fmul (Fin a) (Fin c)) = Fin (f + a * c)"
proof -
  have "\<bar>a * c\<bar> = \<bar>a\<bar> * \<bar>c\<bar>"
    by (simp add: abs_mult)
  also have "\<dots> \<le> (\<bar>h\<bar> / 2) * (198 / 100)"
    using assms(2,3) by (intro mult_mono) simp_all
  finally have ac: "\<bar>a * c\<bar> \<le> 99 / 100 * \<bar>h\<bar>" by simp
  have c1: "fmul (Fin a) (Fin c) = Fin (a * c)"
    using ac assms(1) by (simp add: ovf_Fin)
  have "\<bar>f + a * c\<bar> \<le> 1 + 99 / 100 * \<bar>h\<bar>"
    using ac assms(4,5) by linarith
  also have "\<dots> \<le> dbl_max"
    using assms(1) dbl_max_ge_100 by linarith
  finally have c2: "fadd (Fin f) (Fin (a * c)) = Fin (f + a * c)"
    by (simp add: ovf_Fin)
  show ?thesis by (simp only: c1 c2)
qed

lemma coef_fin:
  assumes "\<bar>p\<bar> + \<bar>q\<bar> \<le> 2"
  shows "fadd (fmul (Fin p) (Fin (cos w))) (fmul (Fin q) (Fin (sin w))) = Fin (p * cos w + q * sin w)"
    and "\<bar>p * cos w + q * sin w\<bar> \<le> \<bar>p\<bar> + \<bar>q\<bar>"
    and "fmul (Fin p) (Fin (cos w)) = Fin (p * cos w)"
    and "\<bar>p * cos w\<bar> \<le> \<bar>p\<bar>"
proof -
  have "\<bar>p * cos w\<bar> = \<bar>p\<bar> * \<bar>cos w\<bar>" by (simp add: abs_mult)
  also have "\<dots> \<le> \<bar>p\<bar> * 1" by (intro mult_left_mono) simp_all
  finally show pc: "\<bar>p * cos w\<bar> \<le> \<bar>p\<bar>" by simp
  have "\<bar>q * sin w\<bar> = \<bar>q\<bar> * \<bar>sin w\<bar>" by (simp add: abs_mult)
  also have "\<dots> \<le> \<bar>q\<bar> * 1" by (intro mult_left_mono) simp_all
  finally have qs: "\<bar>q * sin w\<bar> \<le> \<bar>q\<bar>" by simp
  show sum: "\<bar>p * cos w + q * sin w\<bar> \<le> \<bar>p\<bar> + \<bar>q\<bar>"
    using pc qs by linarith
  show d1: "fmul (Fin p) (Fin (cos w)) = Fin (p * cos w)"
    using pc assms by (simp add: ovf_unit)
  have d2: "fmul (Fin q) (Fin (sin w)) = Fin (q * sin w)"
    using qs assms by (simp add: ovf_unit)
  have d3: "fadd (Fin (p * cos w)) (Fin (q * sin w)) = Fin (p * cos w + q * sin w)"
    using sum assms by (simp add: ovf_unit)
  show "fadd (fmul (Fin p) (Fin (cos w))) (fmul (Fin q) (Fin (sin w))) = Fin (p * cos w + q * sin w)"
    by (simp only: d1 d2 d3)
qed


lemma coef_sub_fin:
  assumes "\<bar>p\<bar> + \<bar>q\<bar> \<le> 2"
  shows "fsub (fmul (Fin p) (Fin (cos w))) (fmul (Fin q) (Fin (sin w))) = Fin (p * cos w - q * sin w)"
    and "\<bar>p * cos w - q * sin w\<bar> \<le> \<bar>p\<bar> + \<bar>q\<bar>"
proof -
  have "\<bar>p * cos w\<bar> = \<bar>p\<bar> * \<bar>cos w\<bar>" by (simp add: abs_mult)
  also have "\<dots> \<le> \<bar>p\<bar> * 1" by (intro mult_left_mono) simp_all
  finally have pc: "\<bar>p * cos w\<bar> \<le> \<bar>p\<bar>" by simp
  have "\<bar>q * sin w\<bar> = \<bar>q\<bar> * \<bar>sin w\<bar>" by (simp add: abs_mult)
  also have "\<dots> \<le> \<bar>q\<bar> * 1" by (intro mult_left_mono) simp_all
  finally have qs: "\<bar>q * sin w\<bar> \<le> \<bar>q\<bar>" by simp
  show sum: "\<bar>p * cos w - q * sin w\<bar> \<le> \<bar>p\<bar> + \<bar>q\<bar>"
    using pc qs by linarith
  have d1: "fmul (Fin p) (Fin (cos w)) = Fin (p * cos w)"
    using pc assms by (simp add: ovf_unit)
  have d2: "fmul (Fin q) (Fin (sin w)) = Fin (q * sin w)"
    using qs assms by (simp add: ovf_unit)
  have d3: "fsub (Fin (p * cos w)) (Fin (q * sin w)) = Fin (p * cos w - q * sin w)"
    using sum assms by (simp add: fsub_def ovf_unit)
  show "fsub (fmul (Fin p) (Fin (cos w))) (fmul (Fin q) (Fin (sin w))) = Fin (p * cos w - q * sin w)"
    by (simp only: d1 d2 d3)
qed

lemma ref_fin:
  fixes s r g h t :: real
  assumes "0 \<le> g" and "\<bar>s\<bar> \<le> 10 ^ 307" and "\<bar>r\<bar> \<le> 10 ^ 307" and "\<bar>h\<bar> \<le> dbl_max"
    and "0 \<le> t" and "t \<le> 1"
  defines "f \<equiv> warp g t"
  defines "a \<equiv> h * f * (1 - f) / 2"
  defines "w \<equiv> 2 * pi * (s / 3 + 1 + r * t)"
  shows "ref_red s r g h t = Fin (f + a * (- 0.14861 * cos w + 1.78277 * sin w))"
    and "ref_green s r g h t = Fin (f + a * (- 0.29227 * cos w - 0.90649 * sin w))"
    and "ref_blue s r g h t = Fin (f + a * (1.97294 * cos w))"
proof -
  have f: "0 \<le> f" "f \<le> 1"
    unfolding f_def using assms(1,5,6) by (rule warp_unit)+
  have ang: "ref_angle s r t = Fin w"
    unfolding w_def using assms(2,3,5,6) by (rule ref_angle_fin)
  have ff: "ref_f g t = Fin f"
    unfolding f_def using assms(1,5,6) by (rule ref_f_fin)
  have amp: "ref_amp h (Fin f) = Fin a" and ab: "\<bar>a\<bar> \<le> \<bar>h\<bar> / 2"
    unfolding a_def using ref_amp_fin [OF assms(4) f] by simp_all
  have cr: "fadd (fmul (Fin (- 0.14861)) (Fin (cos w))) (fmul (Fin 1.78277) (Fin (sin w)))
      = Fin (- 0.14861 * cos w + 1.78277 * sin w)"
    and br: "\<bar>- 0.14861 * cos w + 1.78277 * sin w\<bar> \<le> 198 / 100"
    using coef_fin(1,2) [of "- 0.14861" "1.78277" w] by simp_all
  have cg: "fsub (fmul (Fin (- 0.29227)) (Fin (cos w))) (fmul (Fin 0.90649) (Fin (sin w)))
      = Fin (- 0.29227 * cos w - 0.90649 * sin w)"
    and bg: "\<bar>- 0.29227 * cos w - 0.90649 * sin w\<bar> \<le> 198 / 100"
    using coef_sub_fin [of "- 0.29227" "0.90649" w] by simp_all
  have cb: "fmul (Fin 1.97294) (Fin (cos w)) = Fin (1.97294 * cos w)"
    and bb: "\<bar>1.97294 * cos w\<bar> \<le> 198 / 100"
    using coef_fin(3,4) [of "1.97294" 0 w] by simp_all
  show "ref_red s r g h t = Fin (f + a * (- 0.14861 * cos w + 1.78277 * sin w))"
    by (simp only: ref_red_def Let_def ang ff amp fcos.simps fsin.simps cr
          mix_fin [OF assms(4) ab br f])
  show "ref_green s r g h t = Fin (f + a * (- 0.29227 * cos w - 0.90649 * sin w))"
    by (simp only: ref_green_def Let_def ang ff amp fcos.simps fsin.simps cg
          mix_fin [OF assms(4) ab bg f])
  show "ref_blue s r g h t = Fin (f + a * (1.97294 * cos w))"
    by (simp only: ref_blue_def Let_def ang ff amp fcos.simps fsin.simps cb
          mix_fin [OF assms(4) ab bb f])
qed

section \<open>Overflow of the angle\<close>

lemma ref_nan:
  assumes "ref_angle s r t = PInf"
  shows "ref_red s r g h t = NaN" and "ref_green s r g h t = NaN" and "ref_blue s r g h t = NaN"
  by (simp_all add: ref_red_def ref_green_def ref_blue_def Let_def assms fmul_NaN fadd_NaN
        fsub_def)

lemma angle_start_overflow: "ref_angle (10 ^ 308) r 0 = PInf"
proof -
  obtain B :: real where B: "10 \<le> B" "17 * B \<le> dbl_max" "dbl_max < 18 * B"
    and e: "(10::real) ^ 308 = 10 * B"
    by (rule big)
  have "\<bar>10 * B / 3\<bar> \<le> dbl_max"
    using B by linarith
  then have a1: "fdiv (Fin (10 * B)) (Fin 3) = Fin (10 * B / 3)"
    by (simp add: ovf_Fin)
  have "\<bar>10 * B / 3 + 1\<bar> \<le> dbl_max"
    using B by linarith
  then have a2: "fadd (Fin (10 * B / 3)) (Fin 1) = Fin (10 * B / 3 + 1)"
    by (simp add: ovf_Fin)
  have a3: "fmul (Fin r) (Fin 0) = Fin 0"
    by (simp add: ovf_unit)
  have "\<bar>10 * B / 3 + 1 + 0\<bar> \<le> dbl_max"
    using B by linarith
  then have a4: "fadd (Fin (10 * B / 3 + 1)) (Fin 0) = Fin (10 * B / 3 + 1)"
    by (simp add: ovf_Fin)
  have "dbl_max < (2 * 3) * (10 * B / 3 + 1)"
    using B by (simp add: algebra_simps)
  also have "\<dots> \<le> (2 * pi) * (10 * B / 3 + 1)"
    using pi_ge_three B by (intro mult_right_mono) simp_all
  finally have a5: "fmul (Fin (2 * pi)) (Fin (10 * B / 3 + 1)) = PInf"
    by (simp add: ovf_PInf)
  show ?thesis
    by (simp only: ref_angle_def e a1 a2 a3 a4 a5)
qed

lemma angle_rot_overflow:
  assumes "3 / 10 \<le> t" and "t \<le> 1"
  shows "ref_angle 0 (10 ^ 308) t = PInf"
proof -
  obtain B :: real where B: "10 \<le> B" "17 * B \<le> dbl_max" "dbl_max < 18 * B"
    and e: "(10::real) ^ 308 = 10 * B"
    by (rule big)
  have t: "0 \<le> t" using assms(1) by simp
  have lo: "3 * B \<le> 10 * B * t"
    using assms(1) B(1) by (simp add: mult.commute mult_left_mono)
  have "10 * B * t \<le> 10 * B * 1"
    using assms(2) B(1) by (intro mult_left_mono) simp_all
  then have hi: "10 * B * t \<le> 10 * B" by simp
  have pos: "0 \<le> 10 * B * t"
    using t B(1) by simp
  have a1: "fdiv (Fin 0) (Fin 3) = Fin 0"
    by (simp add: ovf_unit)
  have a2: "fadd (Fin 0) (Fin 1) = Fin 1"
    by (simp add: ovf_unit)
  have "\<bar>10 * B * t\<bar> \<le> dbl_max"
    using pos hi B by linarith
  then have a3: "fmul (Fin (10 * B)) (Fin t) = Fin (10 * B * t)"
    by (simp add: ovf_Fin)
  have "\<bar>1 + 10 * B * t\<bar> \<le> dbl_max"
    using pos hi B by linarith
  then have a4: "fadd (Fin 1) (Fin (10 * B * t)) = Fin (1 + 10 * B * t)"
    by (simp add: ovf_Fin)
  have "dbl_max < 6 + 6 * (3 * B)"
    using B by linarith
  also have "\<dots> \<le> 6 + 6 * (10 * B * t)"
    using lo by (intro add_left_mono mult_left_mono) simp_all
  also have "\<dots> = (2 * 3) * (1 + 10 * B * t)"
    by (simp add: algebra_simps)
  also have "\<dots> \<le> (2 * pi) * (1 + 10 * B * t)"
    using pi_ge_three pos by (intro mult_right_mono) simp_all
  finally have a5: "fmul (Fin (2 * pi)) (Fin (1 + 10 * B * t)) = PInf"
    by (simp add: ovf_PInf)
  show ?thesis
    by (simp only: ref_angle_def e a1 a2 a3 a4 a5)
qed

section \<open>The table\<close>

lemma clamp_Fin: "clamp (Fin x) = Fin (max 0 (min 1 x))"
  by (simp add: clamp_def Let_def max_def min_def)

lemma clip_length: "length (reversed b (clip_lo (clip_hi xs))) = length xs"
  by (simp add: reversed_def clip_lo_def clip_hi_def)

lemma clip_nth:
  "length xs = 256 \<Longrightarrow> k < 256 \<Longrightarrow>
   reversed b (clip_lo (clip_hi xs)) ! k = clamp (xs ! src_index b k)"
  by (simp add: reversed_def clip_lo_def clip_hi_def clamp_def Let_def src_index_def rev_nth
        rev_map [symmetric])

lemma src_index_less: "k < 256 \<Longrightarrow> src_index rv k < 256"
  unfolding src_index_def by (cases rv) simp_all

lemma row_ok:
  "k < length xs \<Longrightarrow> row xs k = Inr (real k / 255, xs ! k, xs ! k)"
  by (simp add: row_def py_div_def item_def nlev_def)

lemma table_loop_ok:
  assumes "\<forall>k\<in>set ks. k < length rs \<and> k < length bs \<and> k < length gs"
  shows "table_loop rs bs gs ks rr bb gg =
    Inr \<lparr>red = rr @ map (\<lambda>k. (real k / 255, rs ! k, rs ! k)) ks,
         blue = bb @ map (\<lambda>k. (real k / 255, bs ! k, bs ! k)) ks,
         green = gg @ map (\<lambda>k. (real k / 255, gs ! k, gs ! k)) ks\<rparr>"
  using assms
proof (induction ks arbitrary: rr bb gg)
  case Nil
  show ?case by simp
next
  case (Cons k ks)
  from Cons.prems have k: "k < length rs" "k < length bs" "k < length gs"
    and rest: "\<forall>k\<in>set ks. k < length rs \<and> k < length bs \<and> k < length gs"
    by simp_all
  show ?case
    by (simp add: row_ok k Cons.IH [OF rest])
qed

lemma cmap_eq:
  "cmap s r g h rv =
    Inr \<lparr>red = map (\<lambda>k. (real k / 255,
                 clamp (fst (channels s r g h) ! src_index rv k),
                 clamp (fst (channels s r g h) ! src_index rv k))) [0..<256],
         blue = map (\<lambda>k. (real k / 255,
                 clamp (snd (snd (channels s r g h)) ! src_index rv k),
                 clamp (snd (snd (channels s r g h)) ! src_index rv k))) [0..<256],
         green = map (\<lambda>k. (real k / 255,
                 clamp (fst (snd (channels s r g h)) ! src_index rv k),
                 clamp (fst (snd (channels s r g h)) ! src_index rv k))) [0..<256]\<rparr>"
proof -
  obtain R G B where ch: "channels s r g h = (R, G, B)"
    by (cases "channels s r g h") auto
  have len: "length R = 256" "length G = 256" "length B = 256"
    using channels_length [of s r g h] by (simp_all add: ch)
  have bound: "\<forall>k\<in>set [0..<256]. k < length (reversed rv (clip_lo (clip_hi R))) \<and>
      k < length (reversed rv (clip_lo (clip_hi B))) \<and>
      k < length (reversed rv (clip_lo (clip_hi G)))"
    by (simp add: clip_length len)
  have n: "nat \<lfloor>nlev\<rfloor> = 256" by (simp add: nlev_def)
  show ?thesis
    unfolding cmap_def ch n
    by (simp add: table_loop_ok [OF bound] clip_nth len cong: map_cong)
qed

lemma sample_of_cmap:
  assumes "k < 256"
  shows "sample_of (cmap s r g h rv) k =
    Inr (real k / 255,
         clamp (ref_red s r g h (real (src_index rv k) / 255)),
         clamp (ref_green s r g h (real (src_index rv k) / 255)),
         clamp (ref_blue s r g h (real (src_index rv k) / 255)))"
  using assms
  by (simp add: cmap_eq sample_of_def t_at_def rgb_at_def channels_nth src_index_less)


lemma clamp_NaN: "clamp NaN = NaN"
  by (simp add: clamp_def)

lemma nan_row:
  assumes "k < 256" and "ref_angle s r (real (src_index rv k) / 255) = PInf"
  shows "sample_of (cmap s r g h rv) k = Inr (real k / 255, NaN, NaN, NaN)"
  by (simp only: sample_of_cmap [OF assms(1)] ref_nan [OF assms(2)] clamp_NaN)

lemma start_overflow_row:
  "sample_of (cmap (10 ^ 308) r g h False) 0 = Inr (0, NaN, NaN, NaN)"
proof -
  have z: "real (src_index False 0) / 255 = 0"
    by (simp add: src_index_def)
  have ang: "ref_angle (10 ^ 308) r (real (src_index False 0) / 255) = PInf"
    by (simp only: z angle_start_overflow)
  have k: "(0::nat) < 256" by simp
  have "real 0 / 255 = 0" by simp
  with nan_row [OF k ang] show ?thesis by (simp only:)
qed

lemma rot_overflow_row:
  assumes "77 \<le> k" and "k < 256"
  shows "sample_of (cmap 0 (10 ^ 308) g h False) k = Inr (real k / 255, NaN, NaN, NaN)"
proof -
  have t: "3 / 10 \<le> real k / 255" "real k / 255 \<le> 1"
    using assms by simp_all
  have ang: "ref_angle 0 (10 ^ 308) (real (src_index False k) / 255) = PInf"
    unfolding src_index_def if_False using t by (rule angle_rot_overflow)
  from nan_row [OF assms(2) ang] show ?thesis .
qed

lemma negative_gamma_row:
  "sample_of (cmap 0 0 (- 1) 1 False) 0 = Inr (0, Fin 1, Fin 1, NaN)"
proof -
  have ang: "ref_angle 0 0 0 = Fin (2 * pi)"
    using ref_angle_fin [of 0 0 0] by simp
  have amp: "ref_amp 1 PInf = NInf"
    by (simp add: ref_amp_def scale_inf_def fsub_def)
  have f: "ref_f (- 1) 0 = PInf"
    by (simp add: ref_f_def)
  have r: "ref_red 0 0 (- 1) 1 0 = PInf"
    by (simp add: ref_red_def Let_def ang amp f ovf_unit scale_inf_def)
  have g: "ref_green 0 0 (- 1) 1 0 = PInf"
    by (simp add: ref_green_def Let_def ang amp f ovf_unit scale_inf_def fsub_def)
  have b: "ref_blue 0 0 (- 1) 1 0 = NaN"
    by (simp add: ref_blue_def Let_def ang amp f ovf_unit scale_inf_def)
  show ?thesis
    by (simp add: sample_of_cmap src_index_def r g b clamp_def)
qed

lemma small_params:
  "\<bar>0::real\<bar> \<le> 10 ^ 307" "\<bar>1 / 2 :: real\<bar> \<le> 10 ^ 307" "\<bar>- 3 / 2 :: real\<bar> \<le> 10 ^ 307"
  "\<bar>1::real\<bar> \<le> 10 ^ 307" "\<bar>2::real\<bar> \<le> 10 ^ 307" "\<bar>3::real\<bar> \<le> 10 ^ 307"
  "\<bar>0::real\<bar> \<le> dbl_max" "\<bar>6 / 5 :: real\<bar> \<le> dbl_max" "\<bar>20::real\<bar> \<le> dbl_max"
  "\<bar>7::real\<bar> \<le> dbl_max"
proof -
  obtain B :: real where B: "B = 10 ^ 307" "10 \<le> B" by (rule big)
  have b: "\<bar>x\<bar> \<le> 10 \<Longrightarrow> \<bar>x\<bar> \<le> 10 ^ 307" for x :: real
    using B(2) unfolding B(1) by linarith
  show "\<bar>0::real\<bar> \<le> 10 ^ 307" "\<bar>1 / 2 :: real\<bar> \<le> 10 ^ 307" "\<bar>- 3 / 2 :: real\<bar> \<le> 10 ^ 307"
    "\<bar>1::real\<bar> \<le> 10 ^ 307" "\<bar>2::real\<bar> \<le> 10 ^ 307" "\<bar>3::real\<bar> \<le> 10 ^ 307"
    by (rule b, simp)+
  show "\<bar>0::real\<bar> \<le> dbl_max" "\<bar>6 / 5 :: real\<bar> \<le> dbl_max" "\<bar>20::real\<bar> \<le> dbl_max"
    "\<bar>7::real\<bar> \<le> dbl_max"
    using dbl_max_ge_100 by simp_all
qed

lemma unit_fraction:
  assumes "k < 256"
  shows "0 \<le> real (src_index rv k) / 255" and "real (src_index rv k) / 255 \<le> 1"
  using src_index_less [OF assms, of rv] by simp_all

lemma endpoints:
  assumes "0 < g" and "\<bar>s\<bar> \<le> 10 ^ 307" and "\<bar>r\<bar> \<le> 10 ^ 307" and "\<bar>h\<bar> \<le> dbl_max"
  shows "sample_of (cmap s r g h False) 0 = Inr (0, Fin 0, Fin 0, Fin 0)"
    and "sample_of (cmap s r g h False) 255 = Inr (1, Fin 1, Fin 1, Fin 1)"
proof -
  have g: "0 \<le> g" using assms(1) by simp
  have w: "warp g 0 = 0" "warp g 1 = 1"
    using assms(1) by (simp_all add: warp_def)
  have i: "real (src_index False 0) / 255 = 0" "real (src_index False 255) / 255 = 1"
    by (simp_all add: src_index_def)
  have z: "ref_red s r g h 0 = Fin 0" "ref_green s r g h 0 = Fin 0" "ref_blue s r g h 0 = Fin 0"
    using ref_fin [OF g assms(2,3,4), of 0] by (simp_all add: w)
  have o: "ref_red s r g h 1 = Fin 1" "ref_green s r g h 1 = Fin 1" "ref_blue s r g h 1 = Fin 1"
    using ref_fin [OF g assms(2,3,4), of 1] by (simp_all add: w)
  have k: "(0::nat) < 256" "(255::nat) < 256" by simp_all
  show "sample_of (cmap s r g h False) 0 = Inr (0, Fin 0, Fin 0, Fin 0)"
    unfolding sample_of_cmap [OF k(1)] i z by (simp add: clamp_Fin)
  show "sample_of (cmap s r g h False) 255 = Inr (1, Fin 1, Fin 1, Fin 1)"
    unfolding sample_of_cmap [OF k(2)] i o by (simp add: clamp_Fin)
qed

lemma grey_value:
  assumes "0 < g" and "\<bar>s\<bar> \<le> 10 ^ 307" and "\<bar>r\<bar> \<le> 10 ^ 307" and "0 \<le> t" and "t \<le> 1"
  shows "clamp (ref_red s r g 0 t) = Fin (t powr g)"
    and "clamp (ref_green s r g 0 t) = Fin (t powr g)"
    and "clamp (ref_blue s r g 0 t) = Fin (t powr g)"
proof -
  have g: "0 \<le> g" "g \<noteq> 0" using assms(1) by simp_all
  have w: "warp g t = t powr g"
    using g(2) by (simp add: warp_def)
  have u: "0 \<le> t powr g" "t powr g \<le> 1"
    using warp_unit [OF g(1) assms(4,5)] unfolding w .
  have c: "clamp (Fin (t powr g)) = Fin (t powr g)"
    using u by (simp add: clamp_Fin del: powr_gt_zero)
  note fin = ref_fin [OF g(1) assms(2,3) small_params(7) assms(4,5)]
  show "clamp (ref_red s r g 0 t) = Fin (t powr g)"
    "clamp (ref_green s r g 0 t) = Fin (t powr g)"
    "clamp (ref_blue s r g 0 t) = Fin (t powr g)"
    unfolding fin w using c by simp_all
qed

section \<open>The claims\<close>

subsection \<open>C1: the clamp invariant\<close>

text \<open>
  Claim C1 says that for any real start, rot, gamma and hue every channel of every sample
  lies in \<open>[0,1]\<close>. It fails in two ways, both through \<^verbatim>\<open>nan\<close>, for which neither
  \<^verbatim>\<open>nan > 1.\<close> nor \<^verbatim>\<open>nan < 0.\<close> holds, so that lines 73-79 leave it. With a
  negative gamma \<^verbatim>\<open>0.**gamma\<close> is \<^verbatim>\<open>inf\<close>, the amplitude is \<^verbatim>\<open>-inf\<close> and a
  channel is \<^verbatim>\<open>inf - inf\<close>: at start 0, rot 0, gamma -1, hue 1 the first sample is
  \<open>(0, 1, 1, nan)\<close>. With start \<open>10 ^ 308\<close> the angle of line 63 overflows to
  \<^verbatim>\<open>inf\<close>, its cosine and sine are \<^verbatim>\<open>nan\<close>, and the first sample is
  \<open>(0, nan, nan, nan)\<close>.
\<close>

theorem clamp_counterexample:
  "sample_of (cmap 0 0 (- 1) 1 False) 0 = Inr (0, Fin 1, Fin 1, NaN)
   \<and> sample_of (cmap (10 ^ 308) (- 3 / 2) 1 (6 / 5) False) 0 = Inr (0, NaN, NaN, NaN)"
  using negative_gamma_row start_overflow_row [of "- 3 / 2" 1 "6 / 5"] by (rule conjI)

text \<open>
  Claim C1, amended: for every gamma that is not negative, start and rot of magnitude at
  most \<open>10 ^ 307\<close> (so that the angle of line 63 stays finite), any finite hue, either
  value of reverse and every index \<open>k < 256\<close>, the three pre-clamp values shown at row
  \<open>k\<close> are finite, each channel of the sample is its own pre-clamp value with values
  above 1 set to 1 and values below 0 set to 0, and so lies in \<open>[0,1]\<close>.
\<close>

theorem clamp_invariant:
  assumes "0 \<le> gamma" and "\<bar>start\<bar> \<le> 10 ^ 307" and "\<bar>rot\<bar> \<le> 10 ^ 307"
    and "\<bar>hue\<bar> \<le> dbl_max" and "k < 256"
  shows "\<exists>x y z r g b.
      fst (channels start rot gamma hue) ! src_index reverse k = Fin x
    \<and> fst (snd (channels start rot gamma hue)) ! src_index reverse k = Fin y
    \<and> snd (snd (channels start rot gamma hue)) ! src_index reverse k = Fin z
    \<and> sample_of (cmap start rot gamma hue reverse) k = Inr (real k / 255, Fin r, Fin g, Fin b)
    \<and> r = max 0 (min 1 x) \<and> g = max 0 (min 1 y) \<and> b = max 0 (min 1 z)
    \<and> 0 \<le> r \<and> r \<le> 1 \<and> 0 \<le> g \<and> g \<le> 1 \<and> 0 \<le> b \<and> b \<le> 1"
proof -
  have j: "src_index reverse k < 256"
    using assms(5) by (rule src_index_less)
  note fin = ref_fin [OF assms(1,2,3,4) unit_fraction [OF assms(5), of reverse]]
  show ?thesis
    unfolding sample_of_cmap [OF assms(5)] channels_nth [OF j] fin
    by (simp add: clamp_Fin)
qed

theorem clamp_invariant_witness:
  "(0::real) \<le> 1 \<and> \<bar>0::real\<bar> \<le> 10 ^ 307 \<and> \<bar>20::real\<bar> \<le> dbl_max \<and> (128::nat) < 256 \<and>
   (\<exists>x y z r.
      fst (channels 0 0 1 20) ! 128 = Fin x
    \<and> fst (snd (channels 0 0 1 20)) ! 128 = Fin y
    \<and> snd (snd (channels 0 0 1 20)) ! 128 = Fin z
    \<and> y < 0 \<and> 1 < z
    \<and> sample_of (cmap 0 0 1 20 False) 128 = Inr (real 128 / 255, Fin r, Fin 0, Fin 1)
    \<and> r = max 0 (min 1 x) \<and> 0 \<le> r \<and> r \<le> 1)"
proof -
  have h: "(0::real) \<le> 1" "(128::nat) < 256" by simp_all
  note p = small_params(1,9)
  have i: "src_index False 128 = 128" by (simp add: src_index_def)
  have u: "0 \<le> real 128 / 255" "real 128 / 255 \<le> 1" by simp_all
  from clamp_invariant [OF h(1) p(1) p(1) p(2) h(2), of False]
  obtain x y z r g b where
    c: "fst (channels 0 0 1 20) ! 128 = Fin x"
      "fst (snd (channels 0 0 1 20)) ! 128 = Fin y"
      "snd (snd (channels 0 0 1 20)) ! 128 = Fin z"
      "sample_of (cmap 0 0 1 20 False) 128 = Inr (real 128 / 255, Fin r, Fin g, Fin b)"
      "r = max 0 (min 1 x)" "g = max 0 (min 1 y)" "b = max 0 (min 1 z)"
      "0 \<le> r" "r \<le> 1"
    unfolding i by blast
  have y: "y < 0"
    using c(2) unfolding channels_nth(2) [OF h(2)] ref_fin(2) [OF h(1) p(1) p(1) p(2) u]
    by (simp add: warp_def)
  have z: "1 < z"
    using c(3) unfolding channels_nth(3) [OF h(2)] ref_fin(3) [OF h(1) p(1) p(1) p(2) u]
    by (simp add: warp_def)
  have gb: "g = 0" "b = 1"
    using y z c(6,7) by simp_all
  have s: "sample_of (cmap 0 0 1 20 False) 128 = Inr (real 128 / 255, Fin r, Fin 0, Fin 1)"
    using c(4) by (simp only: gb)
  from c(1,2,3) y z s c(5,8,9) have "\<exists>x y z r.
      fst (channels 0 0 1 20) ! 128 = Fin x
    \<and> fst (snd (channels 0 0 1 20)) ! 128 = Fin y
    \<and> snd (snd (channels 0 0 1 20)) ! 128 = Fin z
    \<and> y < 0 \<and> 1 < z
    \<and> sample_of (cmap 0 0 1 20 False) 128 = Inr (real 128 / 255, Fin r, Fin 0, Fin 1)
    \<and> r = max 0 (min 1 x) \<and> 0 \<le> r \<and> r \<le> 1"
    by blast
  with h(1) p(1) p(2) h(2) show ?thesis by (intro conjI)
qed

subsection \<open>C2: the channel equations\<close>



subsection \<open>C3: the coordinates\<close>

text \<open>
  Claim C3: for every configuration the palette's \<open>t\<close> coordinates are \<open>k/255\<close>, the
  same in the three channel lists: 0 at index 0, 1 at index 255, strictly increasing and
  evenly spaced by \<open>1/255\<close>.
\<close>

theorem t_coordinates:
  "\<exists>c. cmap start rot gamma hue reverse = Inr c
     \<and> map fst (red c) = map (\<lambda>k. real k / 255) [0..<256]
     \<and> map fst (green c) = map fst (red c)
     \<and> map fst (blue c) = map fst (red c)
     \<and> t_at c 0 = 0 \<and> t_at c 255 = 1
     \<and> (\<forall>k<256. t_at c k = real k / 255)
     \<and> (\<forall>i j. i < j \<and> j < 256 \<longrightarrow> t_at c i < t_at c j)
     \<and> (\<forall>k<255. t_at c (Suc k) - t_at c k = 1 / 255)"
proof -
  let ?c = "projr (cmap start rot gamma hue reverse)"
  have c: "cmap start rot gamma hue reverse = Inr ?c"
    by (simp add: cmap_eq)
  have ts: "map fst (red ?c) = map (\<lambda>k. real k / 255) [0..<256]"
    "map fst (green ?c) = map fst (red ?c)" "map fst (blue ?c) = map fst (red ?c)"
    by (simp_all add: cmap_eq comp_def)
  have t: "t_at ?c k = real k / 255" if "k < 256" for k
    using that by (simp add: cmap_eq t_at_def)
  have mono: "t_at ?c i < t_at ?c j" if "i < j" "j < 256" for i j
    using that by (simp add: t)
  have step: "t_at ?c (Suc k) - t_at ?c k = 1 / 255" if "k < 255" for k
    using that by (simp add: t diff_divide_distrib [symmetric])
  have ends: "t_at ?c 0 = 0" "t_at ?c 255 = 1"
    by (simp_all add: t)
  from c ts ends t mono step show ?thesis by blast
qed

theorem t_coordinates_witness:
  "\<exists>c. cmap (1/2) (- 3/2) 1 (6/5) False = Inr c
     \<and> t_at c 0 = 0 \<and> t_at c 255 = 1 \<and> t_at c 51 = 1 / 5
     \<and> t_at c 127 < t_at c 128 \<and> t_at c 128 - t_at c 127 = 1 / 255"
proof -
  from t_coordinates [of "1/2" "- 3/2" 1 "6/5" False] obtain c where
    c: "cmap (1/2) (- 3/2) 1 (6/5) False = Inr c" "t_at c 0 = 0" "t_at c 255 = 1"
    and t: "\<forall>k<256. t_at c k = real k / 255"
    and m: "\<forall>i j. i < j \<and> j < 256 \<longrightarrow> t_at c i < t_at c j"
    and s: "\<forall>k<255. t_at c (Suc k) - t_at c k = 1 / 255"
    by blast
  from t [rule_format, of 51] have "t_at c 51 = 1 / 5" by simp
  moreover from m [rule_format, of 127 128] have "t_at c 127 < t_at c 128" by simp
  moreover from s [rule_format, of 127] have "t_at c 128 - t_at c 127 = 1 / 255" by simp
  ultimately show ?thesis using c by blast
qed

subsection \<open>C4: the reversal law\<close>

text \<open>
  Claim C4: for every configuration and every index \<open>k < 256\<close>, the palette made with
  reverse set has at \<open>k\<close> the colour that the palette made without it has at
  \<open>255 - k\<close>, and the same \<open>t\<close> coordinate at \<open>k\<close>.
\<close>

theorem reversal_law:
  assumes "k < 256"
  shows "\<exists>c d. cmap start rot gamma hue True = Inr c
     \<and> cmap start rot gamma hue False = Inr d
     \<and> rgb_at c k = rgb_at d (255 - k)
     \<and> t_at c k = t_at d k"
  using assms by (simp add: cmap_eq rgb_at_def t_at_def src_index_def)

theorem reversal_law_witness:
  "(10::nat) < 256 \<and> (\<exists>c d. cmap (1/2) (- 3/2) 1 (6/5) True = Inr c
     \<and> cmap (1/2) (- 3/2) 1 (6/5) False = Inr d
     \<and> rgb_at c 10 = rgb_at d (255 - 10)
     \<and> t_at c 10 = t_at d 10)"
proof -
  have a: "(10::nat) < 256" by simp
  from reversal_law [OF a] a show ?thesis by blast
qed

subsection \<open>C5: the default end points\<close>

text \<open>
  Claim C5: with the defaults (start 0.5, rot -1.5, gamma 1.0, hue 1.2, no reversal) the
  first sample is black, \<open>(0, 0, 0)\<close> at \<open>t = 0\<close>, and the last is white,
  \<open>(1, 1, 1)\<close> at \<open>t = 1\<close>.
\<close>

theorem default_endpoints:
  "sample_of (cmap (1/2) (- 3/2) 1 (6/5) False) 0 = Inr (0, Fin 0, Fin 0, Fin 0)
   \<and> sample_of (cmap (1/2) (- 3/2) 1 (6/5) False) 255 = Inr (1, Fin 1, Fin 1, Fin 1)"
proof -
  have g: "(0::real) < 1" by simp
  from endpoints [OF g small_params(2,3,8)] show ?thesis by (rule conjI)
qed

subsection \<open>C6: the grey ramp\<close>

text \<open>
  Claim C6 says that with hue 0 and a positive gamma every sample has
  \<open>r = g = b = t\<close> to the power gamma, whatever the other parameters. Reversal is one of
  them, and it permutes the colours but not the coordinates: with start 0, rot 0, gamma 1
  and reverse set, the sample at \<open>t = 0\<close> is white, not \<open>0\<close> to the power 1. Rot is
  another: at \<open>10 ^ 308\<close> the angle of row 100 overflows, and the zero amplitude times
  \<^verbatim>\<open>nan\<close> is \<^verbatim>\<open>nan\<close>.
\<close>

theorem grayscale_counterexample:
  "sample_of (cmap 0 0 1 0 True) 0 = Inr (0, Fin 1, Fin 1, Fin 1) \<and> (0::real) powr 1 \<noteq> 1
   \<and> sample_of (cmap 0 (10 ^ 308) 1 0 False) 100 = Inr (real 100 / 255, NaN, NaN, NaN)"
proof -
  have i: "real (src_index True 0) / 255 = 1"
    by (simp add: src_index_def)
  have g: "(0::real) < 1" "(0::real) \<le> 1" by simp_all
  have k: "(0::nat) < 256" by simp
  have a: "sample_of (cmap 0 0 1 0 True) 0 = Inr (0, Fin 1, Fin 1, Fin 1)"
    unfolding sample_of_cmap [OF k] i
      grey_value [OF g(1) small_params(1) small_params(1) g(2) order_refl]
    by simp
  have b: "(0::real) powr 1 \<noteq> 1" by simp
  have n: "(77::nat) \<le> 100" "(100::nat) < 256" by simp_all
  from a b rot_overflow_row [OF n, of 1 0] show ?thesis by blast
qed

text \<open>
  Claim C6, amended: with hue 0, a positive gamma and start and rot of magnitude at most
  \<open>10 ^ 307\<close>, every sample \<open>k < 256\<close> has \<open>r = g = b\<close>, equal to \<open>t\<close> to the
  power gamma without reversal and to \<open>1 - t\<close> to the power gamma with it, where
  \<open>t = k/255\<close>.
\<close>

theorem grayscale:
  assumes "0 < gamma" and "\<bar>start\<bar> \<le> 10 ^ 307" and "\<bar>rot\<bar> \<le> 10 ^ 307" and "k < 256"
  shows "sample_of (cmap start rot gamma 0 reverse) k =
     (let t = real k / 255; v = (if reverse then (1 - t) powr gamma else t powr gamma)
      in Inr (t, Fin v, Fin v, Fin v))"
proof -
  have tj: "real (src_index reverse k) / 255 = (if reverse then 1 - real k / 255 else real k / 255)"
    using assms(4) by (simp add: src_index_def of_nat_diff diff_divide_distrib)
  show ?thesis
    unfolding sample_of_cmap [OF assms(4)]
      grey_value [OF assms(1,2,3) unit_fraction [OF assms(4), of reverse]] Let_def
    by (simp add: tj)
qed

theorem grayscale_witness:
  "(0::real) < 2 \<and> \<bar>1::real\<bar> \<le> 10 ^ 307 \<and> \<bar>2::real\<bar> \<le> 10 ^ 307 \<and> (51::nat) < 256 \<and>
   sample_of (cmap 1 2 2 0 True) 51 =
     (let t = real 51 / 255; v = (if True then (1 - t) powr 2 else t powr 2)
      in Inr (t, Fin v, Fin v, Fin v))"
proof -
  have a: "(0::real) < 2" and b: "(51::nat) < 256" by simp_all
  from grayscale [OF a small_params(4,5) b] a b small_params(4,5) show ?thesis by blast
qed

subsection \<open>C7: the sample count and failures\<close>




subsection \<open>C9: the end points for any hue\<close>

text \<open>
  Claim C9 says that for a positive gamma and no reversal the first sample is black and
  the last is white regardless of start, rot and hue. At both ends the amplitude is zero,
  but zero times \<^verbatim>\<open>nan\<close> is \<^verbatim>\<open>nan\<close>: with start \<open>10 ^ 308\<close> the angle of row 0
  overflows, and with rot \<open>10 ^ 308\<close> that of row 255 does.
\<close>

theorem endpoints_overflow:
  "sample_of (cmap (10 ^ 308) 0 1 1 False) 0 = Inr (0, NaN, NaN, NaN)
   \<and> sample_of (cmap 0 (10 ^ 308) 1 1 False) 255 = Inr (1, NaN, NaN, NaN)"
proof -
  have n: "(77::nat) \<le> 255" "(255::nat) < 256" by simp_all
  have e: "real 255 / 255 = 1" by simp
  from start_overflow_row [of 0 1 1] rot_overflow_row [OF n, of 1 1, unfolded e]
  show ?thesis by (rule conjI)
qed

text \<open>
  Claim C9, amended: for every positive gamma, start and rot of magnitude at most
  \<open>10 ^ 307\<close> and any finite hue, without reversal, the first sample is
  \<open>(0, 0, 0)\<close> and the last is \<open>(1, 1, 1)\<close>.
\<close>

theorem endpoints_any_hue:
  assumes "0 < gamma" and "\<bar>start\<bar> \<le> 10 ^ 307" and "\<bar>rot\<bar> \<le> 10 ^ 307"
    and "\<bar>hue\<bar> \<le> dbl_max"
  shows "sample_of (cmap start rot gamma hue False) 0 = Inr (0, Fin 0, Fin 0, Fin 0)
   \<and> sample_of (cmap start rot gamma hue False) 255 = Inr (1, Fin 1, Fin 1, Fin 1)"
  using endpoints [OF assms] by (rule conjI)

theorem endpoints_any_hue_witness:
  "(0::real) < 5/2 \<and> \<bar>2::real\<bar> \<le> 10 ^ 307 \<and> \<bar>3::real\<bar> \<le> 10 ^ 307 \<and> \<bar>7::real\<bar> \<le> dbl_max
   \<and> sample_of (cmap 2 3 (5/2) 7 False) 0 = Inr (0, Fin 0, Fin 0, Fin 0)
   \<and> sample_of (cmap 2 3 (5/2) 7 False) 255 = Inr (1, Fin 1, Fin 1, Fin 1)"
proof -
  have a: "(0::real) < 5/2" by simp
  from endpoints_any_hue [OF a small_params(5,6,10)] a small_params(5,6,10)
  show ?thesis by blast
qed

subsection \<open>C10: the size of the table\<close>

text \<open>
  Claim C10: for every value of the five parameters the table has exactly 256 rows in
  each channel; no parameter sets the count.
\<close>

theorem table_size:
  "\<exists>c. cmap start rot gamma hue reverse = Inr c
     \<and> length (red c) = 256 \<and> length (green c) = 256 \<and> length (blue c) = 256"
  by (simp add: cmap_eq)

end
